theory Spec2Isabelle
  imports Main "HOL-Library.Sublist"
begin

section \<open>Strings as the program sees them\<close>

text \<open>
  Strings are byte lists. \<open>trim\<close> is \<^verbatim>\<open>String.prototype.trim\<close> restricted to the
  ASCII white space characters; \<open>hex_string\<close> is \<^verbatim>\<open>Buffer.toString('hex')\<close>;
  \<open>number_to_string\<close> is the template-literal rendering of an integral
  \<^verbatim>\<open>number\<close> (the equipment id is a database key, an integer far below the
  magnitude at which JavaScript switches to exponent notation).
\<close>

definition nl :: string where
  "nl = [CHR 0x0A]"

definition is_space :: "char \<Rightarrow> bool" where
  "is_space c = (c \<in> set [CHR '' '', CHR 0x09, CHR 0x0A, CHR 0x0B, CHR 0x0C, CHR 0x0D])"

definition trim :: "string \<Rightarrow> string" where
  "trim s = rev (dropWhile is_space (rev (dropWhile is_space s)))"

definition hex_digit :: "nat \<Rightarrow> char" where
  "hex_digit n = ''0123456789abcdef'' ! (n mod 16)"

definition hex_byte :: "nat \<Rightarrow> string" where
  "hex_byte b = [hex_digit (b div 16), hex_digit b]"

definition hex_string :: "nat list \<Rightarrow> string" where
  "hex_string bs = concat (map hex_byte bs)"

fun show_nat :: "nat \<Rightarrow> string" where
  "show_nat n = (if n < 10 then [hex_digit n] else show_nat (n div 10) @ [hex_digit (n mod 10)])"

declare show_nat.simps [simp del]

definition number_to_string :: "int \<Rightarrow> string" where
  "number_to_string i = (if i < 0 then ''-'' @ show_nat (nat (- i)) else show_nat (nat i))"

fun split_on :: "char \<Rightarrow> string \<Rightarrow> string list" where
  "split_on c [] = [[]]"
| "split_on c (x # xs) =
     (if x = c then [] # split_on c xs
      else (case split_on c xs of [] \<Rightarrow> [[x]] | y # ys \<Rightarrow> (x # y) # ys))"

fun join_with :: "string \<Rightarrow> string list \<Rightarrow> string" where
  "join_with sep [] = []"
| "join_with sep [x] = x"
| "join_with sep (x # y # ys) = x @ sep @ join_with sep (y # ys)"

section \<open>Paths: \<^verbatim>\<open>path.join\<close> (POSIX)\<close>

text \<open>
  \<^verbatim>\<open>path.join(a, b)\<close> glues its non-empty arguments with a slash and normalises the
  result: empty and \<^verbatim>\<open>.\<close> segments vanish, \<^verbatim>\<open>..\<close> removes the segment before it
  (or is kept in front of a relative path, dropped at the root), a trailing slash
  survives. Normalisation matters here because the asset tag is glued into file
  names unchecked.
\<close>

definition norm_step :: "bool \<Rightarrow> string list \<Rightarrow> string \<Rightarrow> string list" where
  "norm_step allowAboveRoot res seg =
     (if seg = [] \<or> seg = ''.'' then res
      else if seg = ''..'' then
        (if res \<noteq> [] \<and> last res \<noteq> ''..'' then butlast res
         else if allowAboveRoot then res @ [''..''] else res)
      else res @ [seg])"

definition normalizeString :: "string \<Rightarrow> bool \<Rightarrow> string list" where
  "normalizeString path allowAboveRoot =
     foldl (norm_step allowAboveRoot) [] (split_on CHR ''/'' path)"

definition normalize :: "string \<Rightarrow> string" where
  "normalize path =
     (if path = [] then ''.''
      else
        let isAbsolute = (hd path = CHR ''/'');
            trailingSeparator = (last path = CHR ''/'');
            p = join_with ''/'' (normalizeString path (\<not> isAbsolute))
        in if p = [] then (if isAbsolute then ''/'' else if trailingSeparator then ''./'' else ''.'')
           else (if isAbsolute then ''/'' else []) @ p @ (if trailingSeparator then ''/'' else []))"

definition path_join :: "string \<Rightarrow> string \<Rightarrow> string" where
  "path_join a b =
     (let args = filter (\<lambda>s. s \<noteq> []) [a, b]
      in if args = [] then ''.'' else normalize (join_with ''/'' args))"

section \<open>The world: file system, randomness, clock\<close>

text \<open>
  What OpenSSL stores in a PEM file is kept symbolically: a private key is named by
  the random material it was generated from and carries the pass phrase it is
  encrypted under; a certificate records who signed what. A file holds either such
  an object or plain text.
\<close>

datatype general_name = URI string | DNS string | Email string

record certificate =
  subject :: string
  issuer :: string
  public_key :: nat
  signing_key :: nat
  not_before :: int
  not_after :: int
  serial :: nat
  subject_alt_names :: "general_name list"

datatype pem_obj =
    PrivateKey nat nat "string option"
  | Request string nat "general_name list"
  | Certificate certificate

datatype content = Text string | Pem pem_obj

datatype node = File content nat | Dir

record world =
  dirs :: "string set"
  files :: "string \<rightharpoonup> content \<times> nat"
  entropy :: "nat \<Rightarrow> nat"
  drawn :: nat
  now :: int

text \<open>
  The functions of the platform that are taken as given: SHA-256 with hex output,
  the PEM text of an object, the date text OpenSSL prints, the \<^verbatim>\<open>Date\<close> constructor
  on such a text (\<open>None\<close> is \<^verbatim>\<open>Invalid Date\<close>) and \<^verbatim>\<open>Date.prototype.toISOString\<close>.
\<close>

record platform =
  sha256_hex :: "string \<Rightarrow> string"
  pem_text :: "pem_obj \<Rightarrow> string"
  asn1_time :: "int \<Rightarrow> string"
  parse_date :: "string \<Rightarrow> int option"
  iso_string :: "int \<Rightarrow> string"

datatype errno = ENOENT | EACCES | EISDIR

datatype error =
    SystemError errno string
  | ExecError string
  | Error string
  | RangeError string

type_synonym 'a io = "world \<Rightarrow> (error + 'a) \<times> world"

definition io_return :: "'a \<Rightarrow> 'a io" where
  "io_return x = (\<lambda>w. (Inr x, w))"

definition io_throw :: "error \<Rightarrow> 'a io" where
  "io_throw e = (\<lambda>w. (Inl e, w))"

definition io_bind :: "'a io \<Rightarrow> ('a \<Rightarrow> 'b io) \<Rightarrow> 'b io" where
  "io_bind m f = (\<lambda>w. case m w of (Inl e, w') \<Rightarrow> (Inl e, w') | (Inr x, w') \<Rightarrow> f x w')"

definition io_catch :: "'a io \<Rightarrow> (error \<Rightarrow> 'a io) \<Rightarrow> 'a io" where
  "io_catch m h = (\<lambda>w. case m w of (Inl e, w') \<Rightarrow> h e w' | (Inr x, w') \<Rightarrow> (Inr x, w'))"

subsection \<open>Permissions and directories\<close>

text \<open>
  A mode is the usual permission number; the process is the owner and not root, so
  it reads through bit \<^verbatim>\<open>0o400\<close> and writes through bit \<^verbatim>\<open>0o200\<close>. New files get
  the requested mode under the customary umask \<^verbatim>\<open>0o022\<close>; an existing file keeps
  its mode when it is overwritten.
\<close>

definition owner_readable :: "nat \<Rightarrow> bool" where
  "owner_readable m = odd (m div 256)"

definition owner_writable :: "nat \<Rightarrow> bool" where
  "owner_writable m = odd (m div 128)"

definition mode_0644 :: nat where "mode_0644 = 420"
definition mode_0600 :: nat where "mode_0600 = 384"

definition parent_dir :: "string \<Rightarrow> string" where
  "parent_dir p =
     (let q = dropWhile (\<lambda>c. c \<noteq> CHR ''/'') (rev p)
      in if q = [] then ''.'' else if tl q = [] then ''/'' else rev (tl q))"

definition text_of :: "platform \<Rightarrow> content \<Rightarrow> string" where
  "text_of pf c = (case c of Text s \<Rightarrow> s | Pem obj \<Rightarrow> pem_text pf obj)"

text \<open>
  The directories are a set of paths, the files a map from paths to content and
  mode. Every operation on a path first resolves it: the directory that holds the
  path must exist.
\<close>

definition resolve :: "world \<Rightarrow> string \<Rightarrow> errno + node option" where
  "resolve w p =
     (if parent_dir p \<in> dirs w
      then Inr (if p \<in> dirs w then Some Dir else map_option (\<lambda>(c, m). File c m) (files w p))
      else Inl ENOENT)"

text \<open>
  Opening a path for writing gives the mode the file will have: its own when it
  exists, \<open>m\<close> when it is created.
\<close>

definition open_for_write :: "world \<Rightarrow> string \<Rightarrow> nat \<Rightarrow> errno + nat" where
  "open_for_write w p m =
     (case resolve w p of
        Inl e \<Rightarrow> Inl e
      | Inr None \<Rightarrow> Inr m
      | Inr (Some Dir) \<Rightarrow> Inl EISDIR
      | Inr (Some (File old m')) \<Rightarrow> if owner_writable m' then Inr m' else Inl EACCES)"

definition put_file :: "string \<Rightarrow> content \<Rightarrow> nat \<Rightarrow> world \<Rightarrow> errno + world" where
  "put_file p c m w =
     (case open_for_write w p m of
        Inl e \<Rightarrow> Inl e
      | Inr m' \<Rightarrow> Inr (w\<lparr>files := (files w)(p \<mapsto> (c, m'))\<rparr>))"

definition get_file :: "string \<Rightarrow> world \<Rightarrow> errno + content" where
  "get_file p w =
     (case resolve w p of
        Inl e \<Rightarrow> Inl e
      | Inr None \<Rightarrow> Inl ENOENT
      | Inr (Some Dir) \<Rightarrow> Inl EISDIR
      | Inr (Some (File c m)) \<Rightarrow> if owner_readable m then Inr c else Inl EACCES)"

subsection \<open>\<^verbatim>\<open>fs/promises\<close>\<close>

definition fs_access :: "string \<Rightarrow> unit io" where
  "fs_access p =
     (\<lambda>w. case resolve w p of
        Inl e \<Rightarrow> (Inl (SystemError e p), w)
      | Inr None \<Rightarrow> (Inl (SystemError ENOENT p), w)
      | Inr (Some n) \<Rightarrow> (Inr (), w))"

definition readFile :: "platform \<Rightarrow> string \<Rightarrow> string io" where
  "readFile pf p =
     (\<lambda>w. case get_file p w of
        Inl e \<Rightarrow> (Inl (SystemError e p), w)
      | Inr c \<Rightarrow> (Inr (text_of pf c), w))"

definition writeFile :: "string \<Rightarrow> string \<Rightarrow> nat \<Rightarrow> unit io" where
  "writeFile p data m =
     (\<lambda>w. case put_file p (Text data) m w of
        Inl e \<Rightarrow> (Inl (SystemError e p), w)
      | Inr w' \<Rightarrow> (Inr (), w'))"

definition unlink :: "string \<Rightarrow> unit io" where
  "unlink p =
     (\<lambda>w. case resolve w p of
        Inl e \<Rightarrow> (Inl (SystemError e p), w)
      | Inr None \<Rightarrow> (Inl (SystemError ENOENT p), w)
      | Inr (Some Dir) \<Rightarrow> (Inl (SystemError EISDIR p), w)
      | Inr (Some (File c m)) \<Rightarrow> (Inr (), w\<lparr>files := (files w)(p := None)\<rparr>))"

subsection \<open>\<^verbatim>\<open>crypto\<close>\<close>

definition randomBytes :: "nat \<Rightarrow> (nat list) io" where
  "randomBytes n =
     (\<lambda>w. (Inr (map (\<lambda>i. entropy w (drawn w + i) mod 256) [0..<n]), w\<lparr>drawn := drawn w + n\<rparr>))"

text \<open>A version-4 UUID: sixteen random bytes, version and variant bits forced.\<close>

definition uuid_string :: "nat list \<Rightarrow> string" where
  "uuid_string bs =
     (let bs' = bs[6 := (bs ! 6) mod 16 + 64, 8 := (bs ! 8) mod 64 + 128];
          h = hex_string bs'
      in take 8 h @ ''-'' @ take 4 (drop 8 h) @ ''-'' @ take 4 (drop 12 h) @ ''-''
         @ take 4 (drop 16 h) @ ''-'' @ drop 20 h)"

definition randomUUID :: "string io" where
  "randomUUID = io_bind (randomBytes 16) (\<lambda>bs. io_return (uuid_string bs))"

section \<open>OpenSSL, as far as the program drives it\<close>

subsection \<open>Configuration files\<close>

text \<open>
  A configuration file is read line by line: a bracketed line opens a section,
  \<^verbatim>\<open>name = value\<close> adds an entry to the open section (both sides stripped of
  surrounding blanks), blank lines are skipped and anything else is a syntax error.
  OpenSSL's comments, quoting, escapes and variable expansion are left out, so the
  reading is exact for values made of letters, digits, \<^verbatim>\<open>-\<close>, \<^verbatim>\<open>_\<close>, \<^verbatim>\<open>.\<close> and \<^verbatim>\<open>:\<close>.
\<close>

type_synonym conf = "(string \<times> string \<times> string) list"

fun parse_lines :: "string \<Rightarrow> string list \<Rightarrow> conf option" where
  "parse_lines sec [] = Some []"
| "parse_lines sec (l # ls) =
     (let t = trim l in
      if t = [] then parse_lines sec ls
      else if hd t = CHR ''['' \<and> last t = CHR '']'' then parse_lines (trim (butlast (tl t))) ls
      else if CHR ''='' \<in> set t then
        map_option
          (Cons (sec, trim (takeWhile (\<lambda>c. c \<noteq> CHR ''='') t),
                 trim (drop 1 (dropWhile (\<lambda>c. c \<noteq> CHR ''='') t))))
          (parse_lines sec ls)
      else None)"

definition parse_conf :: "string \<Rightarrow> conf option" where
  "parse_conf s = parse_lines ''default'' (split_on CHR 0x0A s)"

definition section_entries :: "conf \<Rightarrow> string \<Rightarrow> (string \<times> string) list" where
  "section_entries cf sec = map snd (filter (\<lambda>e. fst e = sec) cf)"

definition conf_get :: "conf \<Rightarrow> string \<Rightarrow> string \<Rightarrow> string option" where
  "conf_get cf sec name = map_of (section_entries cf sec) name"

text \<open>An entry \<^verbatim>\<open>URI.1 = v\<close> of an alternative-names section: the kind is the name up to the dot.\<close>

definition general_name_of :: "string \<times> string \<Rightarrow> general_name option" where
  "general_name_of e =
     (let kind = takeWhile (\<lambda>c. c \<noteq> CHR ''.'') (fst e) in
      if kind = ''URI'' then Some (URI (snd e))
      else if kind = ''DNS'' then Some (DNS (snd e))
      else if kind = ''email'' then Some (Email (snd e))
      else None)"

text \<open>The \<^verbatim>\<open>subjectAltName\<close> of an extension section, given as \<^verbatim>\<open>@section\<close>, in file order.\<close>

definition conf_alt_names :: "conf \<Rightarrow> string \<Rightarrow> general_name list option" where
  "conf_alt_names cf sec =
     (case conf_get cf sec ''subjectAltName'' of
        None \<Rightarrow> Some []
      | Some v \<Rightarrow>
          (case v of
             [] \<Rightarrow> None
           | c # name \<Rightarrow>
               if c = CHR ''@'' then those (map general_name_of (section_entries cf name))
               else None))"

definition conf_subject :: "conf \<Rightarrow> string option" where
  "conf_subject cf =
     (case conf_get cf ''req'' ''distinguished_name'' of
        None \<Rightarrow> None
      | Some dn \<Rightarrow> Some (concat (map (\<lambda>e. ''/'' @ fst e @ ''='' @ snd e) (section_entries cf dn))))"

definition conf_req_extensions :: "conf \<Rightarrow> general_name list option" where
  "conf_req_extensions cf =
     (case conf_get cf ''req'' ''req_extensions'' of
        None \<Rightarrow> Some []
      | Some sec \<Rightarrow> conf_alt_names cf sec)"

subsection \<open>The five invocations\<close>

text \<open>
  The program builds command lines by string interpolation and hands them to the
  shell. Each command is modelled by its argument vector, in the order of the
  command line; this is what the shell passes on when every interpolated string is
  a single shell word.

  \<^item> \<open>Genrsa out passout bits\<close>:
    \<^verbatim>\<open>openssl genrsa -out OUT [-aes256 -passout pass:PW] BITS\<close>
  \<^item> \<open>ReqX509 days key out passin subj\<close>:
    \<^verbatim>\<open>openssl req -new -x509 -days DAYS -key KEY -out OUT -passin pass:PW -subj SUBJ\<close>
  \<^item> \<open>ReqNew key out config\<close>:
    \<^verbatim>\<open>openssl req -new -key KEY -out OUT -config CONFIG\<close>
  \<^item> \<open>X509Req in ca cakey out days extfile passin\<close>:
    \<^verbatim>\<open>openssl x509 -req -in IN -CA CA -CAkey CAKEY -CAcreateserial -out OUT -days DAYS
    -sha256 -extensions v3_req -extfile EXTFILE -passin pass:PW\<close>
  \<^item> \<open>X509Dates in\<close>: \<^verbatim>\<open>openssl x509 -in IN -noout -dates\<close>
\<close>

datatype openssl =
    Genrsa string "string option" nat
  | ReqX509 nat string string string string
  | ReqNew string string string
  | X509Req string string string string nat string string
  | X509Dates string

definition read_pem :: "string \<Rightarrow> world \<Rightarrow> pem_obj option" where
  "read_pem p w = (case get_file p w of Inr (Pem obj) \<Rightarrow> Some obj | _ \<Rightarrow> None)"

definition read_conf :: "string \<Rightarrow> world \<Rightarrow> conf option" where
  "read_conf p w = (case get_file p w of Inr (Text s) \<Rightarrow> parse_conf s | _ \<Rightarrow> None)"

text \<open>
  Loading a private key: an unencrypted key needs no pass phrase, an encrypted one
  needs the pass phrase it was encrypted under (there is no terminal to ask on).
\<close>

definition unlock :: "pem_obj \<Rightarrow> string option \<Rightarrow> nat option" where
  "unlock obj passin =
     (case obj of
        PrivateKey k bits None \<Rightarrow> Some k
      | PrivateKey k bits (Some pw) \<Rightarrow> if passin = Some pw then Some k else None
      | _ \<Rightarrow> None)"

definition load_key :: "string \<Rightarrow> string option \<Rightarrow> world \<Rightarrow> nat option" where
  "load_key p passin w = (case read_pem p w of None \<Rightarrow> None | Some obj \<Rightarrow> unlock obj passin)"

definition draw :: "world \<Rightarrow> nat \<times> world" where
  "draw w = (entropy w (drawn w), w\<lparr>drawn := drawn w + 1\<rparr>)"

text \<open>The serial file of \<^verbatim>\<open>-CAcreateserial\<close>: the CA file name up to its last dot, plus \<^verbatim>\<open>.srl\<close>.\<close>

definition srl_path :: "string \<Rightarrow> string" where
  "srl_path ca =
     (let q = dropWhile (\<lambda>c. c \<noteq> CHR ''.'') (rev ca)
      in (if q = [] then ca else rev (tl q)) @ ''.srl'')"

definition seconds_per_day :: int where
  "seconds_per_day = 86400"

text \<open>The result is the standard output on exit status 0, \<open>None\<close> on any other status.\<close>

fun openssl_run :: "platform \<Rightarrow> openssl \<Rightarrow> world \<Rightarrow> string option \<times> world" where
  "openssl_run pf (Genrsa out passout bits) w =
     (let (k, w1) = draw w in
      (case put_file out (Pem (PrivateKey k bits passout)) mode_0600 w1 of
         Inl e \<Rightarrow> (None, w1)
       | Inr w2 \<Rightarrow> (Some [], w2)))"
| "openssl_run pf (ReqX509 days key out passin subj) w =
     (case load_key key (Some passin) w of
        None \<Rightarrow> (None, w)
      | Some k \<Rightarrow>
          let (s, w1) = draw w;
              c = \<lparr>subject = subj, issuer = subj, public_key = k, signing_key = k,
                   not_before = now w, not_after = now w + int days * seconds_per_day,
                   serial = s, subject_alt_names = []\<rparr>
          in (case put_file out (Pem (Certificate c)) mode_0644 w1 of
                Inl e \<Rightarrow> (None, w1)
              | Inr w2 \<Rightarrow> (Some [], w2)))"
| "openssl_run pf (ReqNew key out config) w =
     (case read_conf config w of
        None \<Rightarrow> (None, w)
      | Some cf \<Rightarrow>
          (case (conf_subject cf, conf_req_extensions cf, load_key key None w) of
             (Some subj, Some san, Some k) \<Rightarrow>
               (case put_file out (Pem (Request subj k san)) mode_0644 w of
                  Inl e \<Rightarrow> (None, w)
                | Inr w1 \<Rightarrow> (Some [], w1))
           | _ \<Rightarrow> (None, w)))"
| "openssl_run pf (X509Req inp ca cakey out days extfile passin) w =
     (case (read_pem inp w, read_pem ca w, load_key cakey (Some passin) w, read_conf extfile w) of
        (Some (Request subj k san_req), Some (Certificate cacert), Some kca, Some cf) \<Rightarrow>
          (case conf_alt_names cf ''v3_req'' of
             None \<Rightarrow> (None, w)
           | Some san \<Rightarrow>
               if kca \<noteq> public_key cacert then (None, w)
               else
                 let (s, w1) = draw w;
                     c = \<lparr>subject = subj, issuer = subject cacert, public_key = k,
                          signing_key = kca, not_before = now w,
                          not_after = now w + int days * seconds_per_day,
                          serial = s, subject_alt_names = san\<rparr>
                 in (case put_file (srl_path ca) (Text (show_nat s)) mode_0644 w1 of
                       Inl e \<Rightarrow> (None, w1)
                     | Inr w2 \<Rightarrow>
                         (case put_file out (Pem (Certificate c)) mode_0644 w2 of
                            Inl e \<Rightarrow> (None, w2)
                          | Inr w3 \<Rightarrow> (Some [], w3))))
      | _ \<Rightarrow> (None, w))"
| "openssl_run pf (X509Dates inp) w =
     (case read_pem inp w of
        Some (Certificate c) \<Rightarrow>
          (Some (''notBefore='' @ asn1_time pf (not_before c) @ nl
                 @ ''notAfter='' @ asn1_time pf (not_after c) @ nl), w)
      | _ \<Rightarrow> (None, w))"

definition execAsync :: "platform \<Rightarrow> openssl \<Rightarrow> string io" where
  "execAsync pf cmd =
     (\<lambda>w. case openssl_run pf cmd w of
        (None, w') \<Rightarrow> (Inl (ExecError ''Command failed''), w')
      | (Some out, w') \<Rightarrow> (Inr out, w'))"

section \<open>\<^verbatim>\<open>certificate-generator.ts\<close>\<close>

record CertificateInfo =
  deviceId :: string
  equipmentId :: int
  fingerprint :: string
  certificatePath :: string
  privateKeyPath :: string

record CertificateGenerator =
  caDir :: string
  certsDir :: string
  caCertPath :: string
  caKeyPath :: string
  caPasswordPath :: string

definition new_CertificateGenerator :: "string \<Rightarrow> CertificateGenerator" where
  "new_CertificateGenerator baseDir =
     (let ca = path_join baseDir ''ca'' in
      \<lparr>caDir = ca,
       certsDir = path_join baseDir ''device-certs'',
       caCertPath = path_join ca ''ca-cert.pem'',
       caKeyPath = path_join ca ''ca-key.pem'',
       caPasswordPath = path_join ca ''ca-password.txt''\<rparr>)"

subsection \<open>\<^verbatim>\<open>ensureCAExists\<close>\<close>

record CAResult =
  caCertContent :: string
  isNew :: bool

definition ca_subject :: string where
  "ca_subject = ''/C=NL/ST=Noord-Holland/L=Amsterdam/O=Poem Booth/CN=Poem Booth Root CA''"

text \<open>The body of the \<^verbatim>\<open>catch\<close> block: generate a new CA.\<close>

definition generate_new_ca :: "platform \<Rightarrow> CertificateGenerator \<Rightarrow> CAResult io" where
  "generate_new_ca pf cg =
     io_bind (randomBytes 32) (\<lambda>bs.
       let caPassword = hex_string bs in
       io_bind (execAsync pf (Genrsa (caKeyPath cg) (Some caPassword) 4096)) (\<lambda>_.
       io_bind (execAsync pf (ReqX509 3650 (caKeyPath cg) (caCertPath cg) caPassword ca_subject)) (\<lambda>_.
       io_bind (writeFile (caPasswordPath cg) caPassword mode_0600) (\<lambda>_.
       io_bind (readFile pf (caCertPath cg)) (\<lambda>content.
       io_return \<lparr>caCertContent = content, isNew = True\<rparr>)))))"

definition ensureCAExists :: "platform \<Rightarrow> CertificateGenerator \<Rightarrow> CAResult io" where
  "ensureCAExists pf cg =
     io_catch
       (io_bind (fs_access (caCertPath cg)) (\<lambda>_.
        io_bind (readFile pf (caCertPath cg)) (\<lambda>content.
        io_return \<lparr>caCertContent = content, isNew = False\<rparr>)))
       (\<lambda>_. generate_new_ca pf cg)"

subsection \<open>\<^verbatim>\<open>generateDeviceCertificate\<close>\<close>

text \<open>The template literal, line by line; the caller trims it before writing.\<close>

definition opensslConfig :: "string \<Rightarrow> int \<Rightarrow> string \<Rightarrow> string \<Rightarrow> string" where
  "opensslConfig device equipment hub tag =
     join_with nl
       [[],
        ''[req]'',
        ''distinguished_name = req_distinguished_name'',
        ''req_extensions = v3_req'',
        ''prompt = no'',
        [],
        ''[req_distinguished_name]'',
        ''C = NL'',
        ''ST = Noord-Holland'',
        ''L = Amsterdam'',
        ''O = Poem Booth'',
        ''CN = '' @ device,
        [],
        ''[v3_req]'',
        ''basicConstraints = CA:FALSE'',
        ''keyUsage = digitalSignature, keyEncipherment'',
        ''extendedKeyUsage = clientAuth'',
        ''subjectAltName = @alt_names'',
        [],
        ''[alt_names]'',
        ''URI.1 = urn:device:'' @ device,
        ''URI.2 = urn:equipment:'' @ number_to_string equipment,
        ''URI.3 = urn:hub:'' @ hub,
        ''DNS.1 = '' @ tag @ ''.booth.internal'',
        []]"

text \<open>The four file names of an issuance, all glued from the asset tag.\<close>

definition keyPath_of :: "CertificateGenerator \<Rightarrow> string \<Rightarrow> string" where
  "keyPath_of cg assetTag = path_join (certsDir cg) (assetTag @ ''-key.pem'')"

definition certPath_of :: "CertificateGenerator \<Rightarrow> string \<Rightarrow> string" where
  "certPath_of cg assetTag = path_join (certsDir cg) (assetTag @ ''-cert.pem'')"

definition csrPath_of :: "CertificateGenerator \<Rightarrow> string \<Rightarrow> string" where
  "csrPath_of cg assetTag = path_join (certsDir cg) (assetTag @ ''.csr'')"

definition configPath_of :: "CertificateGenerator \<Rightarrow> string \<Rightarrow> string" where
  "configPath_of cg assetTag = path_join (certsDir cg) (assetTag @ ''-openssl.cnf'')"

text \<open>The two \<^verbatim>\<open>unlink(...).catch(() => {})\<close> lines that end the function.\<close>

definition cleanup_temporary_files :: "string \<Rightarrow> string \<Rightarrow> unit io" where
  "cleanup_temporary_files csrPath configPath =
     io_bind (io_catch (unlink csrPath) (\<lambda>_. io_return ())) (\<lambda>_.
       io_catch (unlink configPath) (\<lambda>_. io_return ()))"

definition generateDeviceCertificate ::
  "platform \<Rightarrow> CertificateGenerator \<Rightarrow> string \<Rightarrow> string \<Rightarrow> int \<Rightarrow> CertificateInfo io" where
  "generateDeviceCertificate pf cg assetTag hubId equipment =
     io_bind randomUUID (\<lambda>device.
       let keyPath = keyPath_of cg assetTag;
           certPath = certPath_of cg assetTag;
           csrPath = csrPath_of cg assetTag;
           configPath = configPath_of cg assetTag
       in
       io_bind (writeFile configPath (trim (opensslConfig device equipment hubId assetTag)) mode_0644) (\<lambda>_.
       io_bind (execAsync pf (Genrsa keyPath None 2048)) (\<lambda>_.
       io_bind (execAsync pf (ReqNew keyPath csrPath configPath)) (\<lambda>_.
       io_bind (readFile pf (caPasswordPath cg)) (\<lambda>caPassword.
       io_bind (execAsync pf (X509Req csrPath (caCertPath cg) (caKeyPath cg) certPath 3650
                               configPath (trim caPassword))) (\<lambda>_.
       io_bind (readFile pf certPath) (\<lambda>certContent.
       let fp = sha256_hex pf certContent in
       io_bind (cleanup_temporary_files csrPath configPath) (\<lambda>_.
       io_return \<lparr>deviceId = device, equipmentId = equipment, fingerprint = fp,
                  certificatePath = certPath, privateKeyPath = keyPath\<rparr>))))))))"

subsection \<open>\<^verbatim>\<open>getCAInfo\<close>\<close>

text \<open>
  \<^verbatim>\<open>s.match(/KEY(.+)/)?.[1]\<close>: the leftmost place where \<open>KEY\<close> is followed by at
  least one character that is not a line terminator, and the longest run of such
  characters there.
\<close>

definition is_line_terminator :: "char \<Rightarrow> bool" where
  "is_line_terminator c = (c = CHR 0x0A \<or> c = CHR 0x0D)"

fun match_after :: "string \<Rightarrow> string \<Rightarrow> string option" where
  "match_after key [] = None"
| "match_after key (c # cs) =
     (let rest = takeWhile (\<lambda>x. \<not> is_line_terminator x) (drop (length key) (c # cs)) in
      if prefix key (c # cs) \<and> rest \<noteq> [] then Some rest else match_after key cs)"

text \<open>\<^verbatim>\<open>new Date(x!)\<close>, where \<open>x\<close> is \<^verbatim>\<open>undefined\<close> when the pattern did not match.\<close>

definition new_Date :: "platform \<Rightarrow> string option \<Rightarrow> int option" where
  "new_Date pf x = (case x of None \<Rightarrow> None | Some s \<Rightarrow> parse_date pf s)"

record CAInfo =
  ca_fingerprint :: string
  notBefore :: "int option"
  notAfter :: "int option"

definition getCAInfo :: "platform \<Rightarrow> CertificateGenerator \<Rightarrow> CAInfo io" where
  "getCAInfo pf cg =
     io_bind (readFile pf (caCertPath cg)) (\<lambda>content.
       let fp = sha256_hex pf content in
       io_bind (execAsync pf (X509Dates (caCertPath cg))) (\<lambda>certInfo.
       let notBeforeStr = match_after ''notBefore='' certInfo;
           notAfterStr = match_after ''notAfter='' certInfo
       in io_return \<lparr>ca_fingerprint = fp,
                     notBefore = new_Date pf notBeforeStr,
                     notAfter = new_Date pf notAfterStr\<rparr>))"

section \<open>\<^verbatim>\<open>device-registrar.ts\<close>\<close>

text \<open>
  The datastore is outside the program: an insert into \<^verbatim>\<open>trusted_device_cas\<close> answers
  with an error object or with none. \<^verbatim>\<open>toISOString\<close> throws a \<^verbatim>\<open>RangeError\<close> on an
  invalid date, before the insert is sent.
\<close>

record PostgrestError =
  code :: string
  message :: string

record ca_row =
  name :: string
  certificate :: string
  row_fingerprint :: string
  valid_from :: string
  valid_until :: string
  is_active :: bool

definition toISOString :: "platform \<Rightarrow> int option \<Rightarrow> error + string" where
  "toISOString pf d =
     (case d of None \<Rightarrow> Inl (RangeError ''Invalid time value'') | Some t \<Rightarrow> Inr (iso_string pf t))"

definition uploadCAToDatabase ::
  "platform \<Rightarrow> (ca_row \<Rightarrow> PostgrestError option) \<Rightarrow> string \<Rightarrow> string \<Rightarrow> int option \<Rightarrow> int option
     \<Rightarrow> error + unit" where
  "uploadCAToDatabase pf db_insert content fp nb na =
     (case toISOString pf nb of
        Inl e \<Rightarrow> Inl e
      | Inr vf \<Rightarrow>
          (case toISOString pf na of
             Inl e \<Rightarrow> Inl e
           | Inr vu \<Rightarrow>
               (case db_insert \<lparr>name = ''Poem Booth Root CA'', certificate = content,
                             row_fingerprint = fp, valid_from = vf, valid_until = vu,
                             is_active = True\<rparr> of
                  None \<Rightarrow> Inr ()
                | Some err \<Rightarrow>
                    if code err \<noteq> ''23505''
                    then Inl (Error (''Failed to upload CA: '' @ message err))
                    else Inr ())))"

section \<open>Notions used in the statements\<close>

text \<open>A path segment that normalisation keeps: a name, not \<^verbatim>\<open>.\<close> or \<^verbatim>\<open>..\<close>.\<close>

definition proper_seg :: "string \<Rightarrow> bool" where
  "proper_seg x = (x \<noteq> [] \<and> x \<noteq> ''.'' \<and> x \<noteq> ''..'' \<and> CHR ''/'' \<notin> set x)"

text \<open>
  A place that can be written: its directory exists, it is not a directory itself,
  and a file that is already there is writable. \<open>mode_after\<close> is the mode the file
  has after the write.
\<close>

definition slot :: "world \<Rightarrow> string \<Rightarrow> bool" where
  "slot w p =
     (parent_dir p \<in> dirs w \<and> p \<notin> dirs w
      \<and> (case files w p of None \<Rightarrow> True | Some (c, m) \<Rightarrow> owner_writable m))"

definition mode_after :: "world \<Rightarrow> string \<Rightarrow> nat \<Rightarrow> nat" where
  "mode_after w p m = (case files w p of None \<Rightarrow> m | Some (c, m') \<Rightarrow> m')"

text \<open>A readable file with content \<open>c\<close>.\<close>

definition holds :: "world \<Rightarrow> string \<Rightarrow> content \<Rightarrow> bool" where
  "holds w p c =
     (parent_dir p \<in> dirs w \<and> p \<notin> dirs w
      \<and> (\<exists>m. files w p = Some (c, m) \<and> owner_readable m))"

text \<open>A path whose directory exists and which is not a directory itself.\<close>

definition reach :: "world \<Rightarrow> string \<Rightarrow> bool" where
  "reach w p = (parent_dir p \<in> dirs w \<and> p \<notin> dirs w)"

text \<open>The configuration line \<^verbatim>\<open>name = value\<close>.\<close>

definition entry :: "string \<Rightarrow> string \<Rightarrow> string" where
  "entry k v = k @ '' = '' @ v"

text \<open>Text that \<open>trim\<close> leaves alone: not empty, no blank at either end.\<close>

definition tight :: "string \<Rightarrow> bool" where
  "tight s = (s \<noteq> [] \<and> \<not> is_space (hd s) \<and> \<not> is_space (last s))"

text \<open>Text that \<^verbatim>\<open>/KEY=(.+)/\<close> recovers whole: one non-empty line without an equals sign.\<close>

definition date_text :: "string \<Rightarrow> bool" where
  "date_text s = (s \<noteq> [] \<and> (\<forall>c \<in> set s. \<not> is_line_terminator c \<and> c \<noteq> CHR ''=''))"

text \<open>
  Identifiers that mean the same to the shell, to OpenSSL's configuration reader and
  as a file name: letters, digits, hyphen, underscore, dot.
\<close>

definition plain_char :: "char \<Rightarrow> bool" where
  "plain_char c =
     (c \<in> set ''ABCDEFGHIJKLMNOPQRSTUVWXYZabcdefghijklmnopqrstuvwxyz0123456789-_.'')"

definition plain :: "string \<Rightarrow> bool" where
  "plain s = list_all plain_char s"

subsection \<open>A concrete installation, for the examples\<close>

definition demo_platform :: platform where
  "demo_platform =
     \<lparr>sha256_hex = (\<lambda>s. ''sha256('' @ s @ '')''),
      pem_text = (\<lambda>obj. case obj of
                    PrivateKey k b e \<Rightarrow> ''KEY '' @ show_nat k
                  | Request s k n \<Rightarrow> ''CSR '' @ s
                  | Certificate c \<Rightarrow> ''CERT '' @ subject c @ '' #'' @ show_nat (serial c)),
      asn1_time = (\<lambda>t. number_to_string t @ '' GMT''),
      parse_date = (\<lambda>s. Some (int (length s))),
      iso_string = number_to_string\<rparr>"

definition demo_generator :: CertificateGenerator where
  "demo_generator = new_CertificateGenerator ''/srv/pb''"

text \<open>After \<^verbatim>\<open>validatePrerequisites\<close>: both directories exist, nothing else does.\<close>

definition demo_world :: world where
  "demo_world =
     \<lparr>dirs = {''/srv/pb/ca'', ''/srv/pb/device-certs''}, files = Map.empty,
      entropy = (\<lambda>i. i * 37 + 11), drawn = 0, now = 1000\<rparr>"

text \<open>An installation whose CA exists but whose certificate file has lost its read permission.\<close>

definition old_ca_certificate :: certificate where
  "old_ca_certificate =
     \<lparr>subject = ca_subject, issuer = ca_subject, public_key = 7, signing_key = 7,
      not_before = 0, not_after = 315360000, serial = 1, subject_alt_names = []\<rparr>"

definition locked_world :: world where
  "locked_world =
     \<lparr>dirs = {''/srv/pb/ca'', ''/srv/pb/device-certs''},
      files = [''/srv/pb/ca/ca-cert.pem'' \<mapsto> (Pem (Certificate old_ca_certificate), 128),
               ''/srv/pb/ca/ca-key.pem'' \<mapsto> (Pem (PrivateKey 7 4096 (Some ''old-secret'')), 384),
               ''/srv/pb/ca/ca-password.txt'' \<mapsto> (Text ''old-secret'', 384)],
      entropy = (\<lambda>i. i * 37 + 11), drawn = 0, now = 1000\<rparr>"

text \<open>The row that \<^verbatim>\<open>uploadCAToDatabase\<close> sends for valid dates.\<close>

definition ca_row_of :: "platform \<Rightarrow> string \<Rightarrow> string \<Rightarrow> int \<Rightarrow> int \<Rightarrow> ca_row" where
  "ca_row_of pf content fp t1 t2 =
     \<lparr>name = ''Poem Booth Root CA'', certificate = content, row_fingerprint = fp,
      valid_from = iso_string pf t1, valid_until = iso_string pf t2, is_active = True\<rparr>"

definition duplicate_key_error :: PostgrestError where
  "duplicate_key_error =
     \<lparr>code = ''23505'', message = ''duplicate key value violates unique constraint''\<rparr>"

text \<open>The demo installation after the first \<^verbatim>\<open>ensureCAExists\<close>.\<close>

definition bootstrapped_world :: world where
  "bootstrapped_world = snd (ensureCAExists demo_platform demo_generator demo_world)"

section \<open>Facts about strings and paths\<close>

lemma split_on_not_Nil [simp]: "split_on c s \<noteq> []"
  by (induction s) (auto split: list.splits)

lemma split_on_append_sep: "split_on c (a @ c # b) = split_on c a @ split_on c b"
  by (induction a) (auto split: list.splits)

lemma split_on_no_sep: "c \<notin> set a \<Longrightarrow> split_on c a = [a]"
  by (induction a) (auto split: list.splits)

lemma split_on_segments_free: "x \<in> set (split_on c s) \<Longrightarrow> c \<notin> set x"
  by (induction s arbitrary: x) (auto split: list.splits if_splits)

lemma split_on_append_free:
  "c \<notin> set t \<Longrightarrow> split_on c (a @ t) = butlast (split_on c a) @ [last (split_on c a) @ t]"
  by (induction a) (auto simp: split_on_no_sep split: list.splits)

lemma split_on_single: "split_on c s = [y] \<Longrightarrow> y = s"
  by (induction s arbitrary: y) (auto split: list.splits if_splits)

lemma suffix_last_split_on: "suffix (last (split_on c s)) s"
proof (induction s)
  case Nil
  then show ?case by simp
next
  case (Cons a s)
  show ?case
  proof (cases "a = c")
    case True
    then show ?thesis using Cons by (simp add: suffix_Cons)
  next
    case False
    obtain y ys where sp: "split_on c s = y # ys" by (cases "split_on c s") auto
    show ?thesis
    proof (cases ys)
      case Nil
      then have "y = s" using sp split_on_single by simp
      then show ?thesis using False sp Nil by simp
    next
      case (Cons z zs)
      then show ?thesis using False sp Cons.IH by (simp add: suffix_Cons)
    qed
  qed
qed

lemma join_with_snoc:
  "join_with sep (xs @ [x]) = (if xs = [] then x else join_with sep xs @ sep @ x)"
  by (induction sep xs rule: join_with.induct) auto

lemma norm_step_proper: "proper_seg x \<Longrightarrow> norm_step f res x = res @ [x]"
  by (auto simp: norm_step_def proper_seg_def)

lemma split_on_ends:
  assumes "A = [] \<or> (\<exists>A'. A = A' @ [c])" and "c \<notin> set x"
  shows "\<exists>W. split_on c (A @ x) = W @ [x]"
  using assms by (auto simp: split_on_no_sep split_on_append_sep)

lemma join_with_tail1:
  assumes "pre = [] \<or> pre = ''/''"
  shows "\<exists>A. pre @ join_with ''/'' (R @ [x]) = A @ x \<and> (A = [] \<or> (\<exists>A'. A = A' @ ''/''))"
proof (cases "R = []")
  case True
  then show ?thesis using assms by (auto simp: join_with_snoc)
next
  case False
  have "pre @ join_with ''/'' (R @ [x]) = (pre @ join_with ''/'' R @ ''/'') @ x"
    using False by (simp add: join_with_snoc)
  then show ?thesis by (metis append_assoc)
qed

lemma join_with_tail2:
  assumes "pre = [] \<or> pre = ''/''"
  shows "\<exists>A. pre @ join_with ''/'' (R @ [x, n]) = A @ x @ ''/'' @ n
           \<and> (A = [] \<or> (\<exists>A'. A = A' @ ''/''))"
proof -
  from join_with_tail1[OF assms, of R x] obtain A where
    A: "pre @ join_with ''/'' (R @ [x]) = A @ x" "A = [] \<or> (\<exists>A'. A = A' @ ''/'')" by blast
  have "join_with ''/'' (R @ [x, n]) = join_with ''/'' (R @ [x]) @ ''/'' @ n"
    using join_with_snoc[of "''/''" "R @ [x]" n] by simp
  then have "pre @ join_with ''/'' (R @ [x, n]) = A @ x @ ''/'' @ n"
    using A(1) by (metis append_assoc)
  then show ?thesis using A(2) by blast
qed

lemma normalize_snoc:
  assumes sp: "split_on CHR ''/'' path = S @ [x]" and px: "proper_seg x"
  shows "\<exists>A. normalize path = A @ x \<and> (A = [] \<or> (\<exists>A'. A = A' @ ''/''))"
proof -
  have xne: "x \<noteq> []" and xfree: "CHR ''/'' \<notin> set x" using px by (auto simp: proper_seg_def)
  have pne: "path \<noteq> []" using sp xne by (cases path) auto
  have "suffix x path" using suffix_last_split_on[of "CHR ''/''" path] sp by simp
  then obtain q where q: "path = q @ x" by (auto simp: suffix_def)
  have lastp: "last path \<noteq> CHR ''/''" using q xne xfree by (metis last_appendR last_in_set)
  have ns: "\<And>f. normalizeString path f = foldl (norm_step f) [] S @ [x]"
    by (simp add: normalizeString_def sp norm_step_proper[OF px])
  show ?thesis
  proof (cases "hd path = CHR ''/''")
    case True
    have "normalize path = ''/'' @ join_with ''/'' (foldl (norm_step False) [] S @ [x])"
      using pne lastp True xne by (simp add: normalize_def Let_def ns join_with_snoc)
    then show ?thesis
      using join_with_tail1[of "''/''" "foldl (norm_step False) [] S" x] by auto
  next
    case False
    have "normalize path = join_with ''/'' (foldl (norm_step True) [] S @ [x])"
      using pne lastp False xne by (simp add: normalize_def Let_def ns join_with_snoc)
    then show ?thesis
      using join_with_tail1[of "[]" "foldl (norm_step True) [] S" x] by auto
  qed
qed

lemma path_join_last:
  assumes px: "proper_seg (last (split_on CHR ''/'' m))"
  shows "\<exists>W. split_on CHR ''/'' (path_join d m) = W @ [last (split_on CHR ''/'' m)]"
proof -
  let ?x = "last (split_on CHR ''/'' m)"
  have mne: "m \<noteq> []" using px by (cases m) (auto simp: proper_seg_def)
  have xfree: "CHR ''/'' \<notin> set ?x" using px by (simp add: proper_seg_def)
  define joined where "joined = (if d = [] then m else d @ ''/'' @ m)"
  have pj: "path_join d m = normalize joined"
    using mne by (auto simp: path_join_def joined_def)
  have "\<exists>S. split_on CHR ''/'' joined = S @ [?x]"
  proof (cases "d = []")
    case True
    then show ?thesis unfolding joined_def
      by (metis append_butlast_last_id split_on_not_Nil)
  next
    case False
    have bl: "split_on CHR ''/'' m = butlast (split_on CHR ''/'' m) @ [?x]" by simp
    have "split_on CHR ''/'' joined = split_on CHR ''/'' d @ split_on CHR ''/'' m"
      using False unfolding joined_def by (simp add: split_on_append_sep)
    also have "\<dots> = (split_on CHR ''/'' d @ butlast (split_on CHR ''/'' m)) @ [?x]"
      using bl by (metis append_assoc)
    finally show ?thesis by blast
  qed
  then obtain S where "split_on CHR ''/'' joined = S @ [?x]" by blast
  from normalize_snoc[OF this px] obtain A where
    A: "normalize joined = A @ ?x" "A = [] \<or> (\<exists>A'. A = A' @ ''/'')" by blast
  show ?thesis unfolding pj A(1) using split_on_ends[OF A(2) xfree] .
qed

lemma path_join_last_two:
  assumes px: "proper_seg x" and pn: "proper_seg n"
  shows "\<exists>W. split_on CHR ''/'' (path_join (path_join b x) n) = W @ [x, n]"
proof -
  have xfree: "CHR ''/'' \<notin> set x" and nfree: "CHR ''/'' \<notin> set n"
    and xne: "x \<noteq> []" and nne: "n \<noteq> []"
    using px pn by (auto simp: proper_seg_def)
  have lx: "last (split_on CHR ''/'' x) = x" and ln: "last (split_on CHR ''/'' n) = n"
    using xfree nfree by (simp_all add: split_on_no_sep)
  define d where "d = path_join b x"
  from path_join_last[of x b] px lx obtain W where W: "split_on CHR ''/'' d = W @ [x]"
    unfolding d_def by auto
  have dne: "d \<noteq> []" using W xne by (cases d) auto
  define joined where "joined = d @ ''/'' @ n"
  have pj: "path_join d n = normalize joined"
    using dne nne by (simp add: path_join_def joined_def)
  have sp: "split_on CHR ''/'' joined = (W @ [x]) @ [n]"
    using W nfree unfolding joined_def by (simp add: split_on_append_sep split_on_no_sep)
  have jne: "joined \<noteq> []" unfolding joined_def by simp
  have lastp: "last joined \<noteq> CHR ''/''"
    unfolding joined_def using nne nfree by (metis append_is_Nil_conv last_appendR last_in_set)
  have ns: "\<And>f. normalizeString joined f = foldl (norm_step f) [] W @ [x, n]"
    unfolding normalizeString_def sp by (simp add: norm_step_proper[OF px] norm_step_proper[OF pn])
  have jn: "\<And>R. join_with ''/'' (R @ [x, n]) \<noteq> []"
  proof -
    fix R :: "string list"
    have "join_with ''/'' (R @ [x, n]) = join_with ''/'' (R @ [x]) @ ''/'' @ n"
      using join_with_snoc[of "''/''" "R @ [x]" n] by simp
    then show "join_with ''/'' (R @ [x, n]) \<noteq> []" by simp
  qed
  have "\<exists>A. normalize joined = A @ x @ ''/'' @ n \<and> (A = [] \<or> (\<exists>A'. A = A' @ ''/''))"
  proof (cases "hd joined = CHR ''/''")
    case True
    have "normalize joined = ''/'' @ join_with ''/'' (foldl (norm_step False) [] W @ [x, n])"
      using lastp True jne jn by (simp add: normalize_def Let_def ns)
    then show ?thesis
      using join_with_tail2[of "''/''" "foldl (norm_step False) [] W" x n] by auto
  next
    case False
    have "normalize joined = join_with ''/'' (foldl (norm_step True) [] W @ [x, n])"
      using lastp False jne jn by (simp add: normalize_def Let_def ns)
    then show ?thesis
      using join_with_tail2[of "[]" "foldl (norm_step True) [] W" x n] by auto
  qed
  then obtain A where A: "normalize joined = A @ x @ ''/'' @ n"
    "A = [] \<or> (\<exists>A'. A = A' @ ''/'')" by blast
  from split_on_ends[OF A(2) xfree] obtain V where V: "split_on CHR ''/'' (A @ x) = V @ [x]" by blast
  have "split_on CHR ''/'' (A @ x @ ''/'' @ n) = V @ [x, n]"
    using split_on_append_sep[of "CHR ''/''" "A @ x" n] V nfree by (simp add: split_on_no_sep)
  then show ?thesis unfolding d_def[symmetric] pj A(1) by blast
qed

lemma path_join_suffix:
  assumes "s \<noteq> []" and "CHR ''/'' \<notin> set s" and "\<exists>c\<in>set s. c \<noteq> CHR ''.''"
  shows "suffix s (path_join d (t @ s))"
proof -
  let ?x = "last (split_on CHR ''/'' (t @ s))"
  have x: "?x = last (split_on CHR ''/'' t) @ s"
    using assms(2) by (simp add: split_on_append_free)
  have "last (split_on CHR ''/'' t) \<in> set (split_on CHR ''/'' t)" by simp
  then have free: "CHR ''/'' \<notin> set (last (split_on CHR ''/'' t))"
    by (rule split_on_segments_free)
  obtain c where c: "c \<in> set s" "c \<noteq> CHR ''.''" using assms(3) by blast
  have "c \<in> set ?x" using c(1) x by simp
  then have "?x \<noteq> ''.''" "?x \<noteq> ''..''" using c(2) by auto
  then have "proper_seg ?x" using x assms(1,2) free by (simp add: proper_seg_def)
  from path_join_last[OF this, of d] obtain W where
    "split_on CHR ''/'' (path_join d (t @ s)) = W @ [?x]" by blast
  then have "suffix ?x (path_join d (t @ s))"
    using suffix_last_split_on[of "CHR ''/''" "path_join d (t @ s)"] by simp
  moreover have "suffix s ?x" using x by (simp add: suffix_def)
  ultimately show ?thesis using suffix_order.trans by blast
qed

lemma suffix_clash:
  assumes "suffix a p" and "suffix b q" and "\<not> suffix a b" and "\<not> suffix b a"
  shows "p \<noteq> q"
  using assms suffix_same_cases by blast

lemma srl_path_suffix: "suffix ''.srl'' (srl_path p)"
  by (simp add: srl_path_def Let_def suffix_def)

lemma device_path_suffixes:
  "suffix ''-key.pem'' (keyPath_of cg tag)"
  "suffix ''-cert.pem'' (certPath_of cg tag)"
  "suffix ''.csr'' (csrPath_of cg tag)"
  "suffix ''-openssl.cnf'' (configPath_of cg tag)"
  unfolding keyPath_of_def certPath_of_def csrPath_of_def configPath_of_def
  by (rule path_join_suffix; simp)+

lemma ca_path_suffixes:
  "suffix ''ca-cert.pem'' (caCertPath (new_CertificateGenerator base))"
  "suffix ''ca-key.pem'' (caKeyPath (new_CertificateGenerator base))"
  "suffix ''ca-password.txt'' (caPasswordPath (new_CertificateGenerator base))"
  using path_join_suffix[of "''ca-cert.pem''" "path_join base ''ca''" "[]"]
        path_join_suffix[of "''ca-key.pem''" "path_join base ''ca''" "[]"]
        path_join_suffix[of "''ca-password.txt''" "path_join base ''ca''" "[]"]
  by (simp_all add: new_CertificateGenerator_def Let_def)

lemma device_paths_distinct:
  shows "configPath_of (new_CertificateGenerator base) tag \<noteq> csrPath_of (new_CertificateGenerator base) tag"
    and "configPath_of (new_CertificateGenerator base) tag \<noteq> keyPath_of (new_CertificateGenerator base) tag"
    and "configPath_of (new_CertificateGenerator base) tag \<noteq> certPath_of (new_CertificateGenerator base) tag"
    and "configPath_of (new_CertificateGenerator base) tag \<noteq> srl_path (caCertPath (new_CertificateGenerator base))"
    and "configPath_of (new_CertificateGenerator base) tag \<noteq> caCertPath (new_CertificateGenerator base)"
    and "configPath_of (new_CertificateGenerator base) tag \<noteq> caKeyPath (new_CertificateGenerator base)"
    and "configPath_of (new_CertificateGenerator base) tag \<noteq> caPasswordPath (new_CertificateGenerator base)"
    and "csrPath_of (new_CertificateGenerator base) tag \<noteq> keyPath_of (new_CertificateGenerator base) tag"
    and "csrPath_of (new_CertificateGenerator base) tag \<noteq> certPath_of (new_CertificateGenerator base) tag"
    and "csrPath_of (new_CertificateGenerator base) tag \<noteq> srl_path (caCertPath (new_CertificateGenerator base))"
    and "csrPath_of (new_CertificateGenerator base) tag \<noteq> caCertPath (new_CertificateGenerator base)"
    and "csrPath_of (new_CertificateGenerator base) tag \<noteq> caKeyPath (new_CertificateGenerator base)"
    and "csrPath_of (new_CertificateGenerator base) tag \<noteq> caPasswordPath (new_CertificateGenerator base)"
    and "keyPath_of (new_CertificateGenerator base) tag \<noteq> certPath_of (new_CertificateGenerator base) tag"
    and "keyPath_of (new_CertificateGenerator base) tag \<noteq> srl_path (caCertPath (new_CertificateGenerator base))"
    and "keyPath_of (new_CertificateGenerator base) tag \<noteq> caCertPath (new_CertificateGenerator base)"
    and "keyPath_of (new_CertificateGenerator base) tag \<noteq> caPasswordPath (new_CertificateGenerator base)"
    and "certPath_of (new_CertificateGenerator base) tag \<noteq> srl_path (caCertPath (new_CertificateGenerator base))"
    and "certPath_of (new_CertificateGenerator base) tag \<noteq> caKeyPath (new_CertificateGenerator base)"
    and "certPath_of (new_CertificateGenerator base) tag \<noteq> caPasswordPath (new_CertificateGenerator base)"
proof -
  note d = device_path_suffixes[of "new_CertificateGenerator base" tag]
    and c = ca_path_suffixes[of base]
    and s = srl_path_suffix[of "caCertPath (new_CertificateGenerator base)"]
  show "configPath_of (new_CertificateGenerator base) tag \<noteq> csrPath_of (new_CertificateGenerator base) tag"
    by (rule suffix_clash[OF d(4) d(3)]; simp add: suffix_to_prefix)
  show "configPath_of (new_CertificateGenerator base) tag \<noteq> keyPath_of (new_CertificateGenerator base) tag"
    by (rule suffix_clash[OF d(4) d(1)]; simp add: suffix_to_prefix)
  show "configPath_of (new_CertificateGenerator base) tag \<noteq> certPath_of (new_CertificateGenerator base) tag"
    by (rule suffix_clash[OF d(4) d(2)]; simp add: suffix_to_prefix)
  show "configPath_of (new_CertificateGenerator base) tag \<noteq> srl_path (caCertPath (new_CertificateGenerator base))"
    by (rule suffix_clash[OF d(4) s]; simp add: suffix_to_prefix)
  show "configPath_of (new_CertificateGenerator base) tag \<noteq> caCertPath (new_CertificateGenerator base)"
    by (rule suffix_clash[OF d(4) c(1)]; simp add: suffix_to_prefix)
  show "configPath_of (new_CertificateGenerator base) tag \<noteq> caKeyPath (new_CertificateGenerator base)"
    by (rule suffix_clash[OF d(4) c(2)]; simp add: suffix_to_prefix)
  show "configPath_of (new_CertificateGenerator base) tag \<noteq> caPasswordPath (new_CertificateGenerator base)"
    by (rule suffix_clash[OF d(4) c(3)]; simp add: suffix_to_prefix)
  show "csrPath_of (new_CertificateGenerator base) tag \<noteq> keyPath_of (new_CertificateGenerator base) tag"
    by (rule suffix_clash[OF d(3) d(1)]; simp add: suffix_to_prefix)
  show "csrPath_of (new_CertificateGenerator base) tag \<noteq> certPath_of (new_CertificateGenerator base) tag"
    by (rule suffix_clash[OF d(3) d(2)]; simp add: suffix_to_prefix)
  show "csrPath_of (new_CertificateGenerator base) tag \<noteq> srl_path (caCertPath (new_CertificateGenerator base))"
    by (rule suffix_clash[OF d(3) s]; simp add: suffix_to_prefix)
  show "csrPath_of (new_CertificateGenerator base) tag \<noteq> caCertPath (new_CertificateGenerator base)"
    by (rule suffix_clash[OF d(3) c(1)]; simp add: suffix_to_prefix)
  show "csrPath_of (new_CertificateGenerator base) tag \<noteq> caKeyPath (new_CertificateGenerator base)"
    by (rule suffix_clash[OF d(3) c(2)]; simp add: suffix_to_prefix)
  show "csrPath_of (new_CertificateGenerator base) tag \<noteq> caPasswordPath (new_CertificateGenerator base)"
    by (rule suffix_clash[OF d(3) c(3)]; simp add: suffix_to_prefix)
  show "keyPath_of (new_CertificateGenerator base) tag \<noteq> certPath_of (new_CertificateGenerator base) tag"
    by (rule suffix_clash[OF d(1) d(2)]; simp add: suffix_to_prefix)
  show "keyPath_of (new_CertificateGenerator base) tag \<noteq> srl_path (caCertPath (new_CertificateGenerator base))"
    by (rule suffix_clash[OF d(1) s]; simp add: suffix_to_prefix)
  show "keyPath_of (new_CertificateGenerator base) tag \<noteq> caCertPath (new_CertificateGenerator base)"
    by (rule suffix_clash[OF d(1) c(1)]; simp add: suffix_to_prefix)
  show "keyPath_of (new_CertificateGenerator base) tag \<noteq> caPasswordPath (new_CertificateGenerator base)"
    by (rule suffix_clash[OF d(1) c(3)]; simp add: suffix_to_prefix)
  show "certPath_of (new_CertificateGenerator base) tag \<noteq> srl_path (caCertPath (new_CertificateGenerator base))"
    by (rule suffix_clash[OF d(2) s]; simp add: suffix_to_prefix)
  show "certPath_of (new_CertificateGenerator base) tag \<noteq> caKeyPath (new_CertificateGenerator base)"
    by (rule suffix_clash[OF d(2) c(2)]; simp add: suffix_to_prefix)
  show "certPath_of (new_CertificateGenerator base) tag \<noteq> caPasswordPath (new_CertificateGenerator base)"
    by (rule suffix_clash[OF d(2) c(3)]; simp add: suffix_to_prefix)
qed

lemma ca_paths_distinct:
  shows "srl_path (caCertPath (new_CertificateGenerator base)) \<noteq> caCertPath (new_CertificateGenerator base)"
    and "srl_path (caCertPath (new_CertificateGenerator base)) \<noteq> caKeyPath (new_CertificateGenerator base)"
    and "srl_path (caCertPath (new_CertificateGenerator base)) \<noteq> caPasswordPath (new_CertificateGenerator base)"
    and "caCertPath (new_CertificateGenerator base) \<noteq> caKeyPath (new_CertificateGenerator base)"
    and "caCertPath (new_CertificateGenerator base) \<noteq> caPasswordPath (new_CertificateGenerator base)"
    and "caKeyPath (new_CertificateGenerator base) \<noteq> caPasswordPath (new_CertificateGenerator base)"
proof -
  note c = ca_path_suffixes[of base]
    and s = srl_path_suffix[of "caCertPath (new_CertificateGenerator base)"]
  show "srl_path (caCertPath (new_CertificateGenerator base)) \<noteq> caCertPath (new_CertificateGenerator base)"
    by (rule suffix_clash[OF s c(1)]; simp add: suffix_to_prefix)
  show "srl_path (caCertPath (new_CertificateGenerator base)) \<noteq> caKeyPath (new_CertificateGenerator base)"
    by (rule suffix_clash[OF s c(2)]; simp add: suffix_to_prefix)
  show "srl_path (caCertPath (new_CertificateGenerator base)) \<noteq> caPasswordPath (new_CertificateGenerator base)"
    by (rule suffix_clash[OF s c(3)]; simp add: suffix_to_prefix)
  show "caCertPath (new_CertificateGenerator base) \<noteq> caKeyPath (new_CertificateGenerator base)"
    by (rule suffix_clash[OF c(1) c(2)]; simp add: suffix_to_prefix)
  show "caCertPath (new_CertificateGenerator base) \<noteq> caPasswordPath (new_CertificateGenerator base)"
    by (rule suffix_clash[OF c(1) c(3)]; simp add: suffix_to_prefix)
  show "caKeyPath (new_CertificateGenerator base) \<noteq> caPasswordPath (new_CertificateGenerator base)"
    by (rule suffix_clash[OF c(2) c(3)]; simp add: suffix_to_prefix)
qed

text \<open>
  An asset tag without a slash stays inside the device directory: the last two
  segments of its key and certificate paths are \<^verbatim>\<open>device-certs\<close> and the file name.
\<close>

lemma last_two_clash:
  assumes "split_on c p = W @ [a, b]" and "split_on c q = V @ [a', b']" and "a \<noteq> a'"
  shows "p \<noteq> q"
  using assms by auto

lemma tag_paths_distinct:
  assumes "CHR ''/'' \<notin> set tag"
  shows "keyPath_of (new_CertificateGenerator base) tag \<noteq> caKeyPath (new_CertificateGenerator base)"
    and "certPath_of (new_CertificateGenerator base) tag \<noteq> caCertPath (new_CertificateGenerator base)"
proof -
  have pd: "proper_seg ''device-certs''" and pc: "proper_seg ''ca''"
    and pk: "proper_seg ''ca-key.pem''" and pcc: "proper_seg ''ca-cert.pem''"
    by (simp_all add: proper_seg_def)
  have tk: "proper_seg (tag @ ''-key.pem'')" and tc: "proper_seg (tag @ ''-cert.pem'')"
    using assms by (auto simp: proper_seg_def append_eq_Cons_conv)
  from path_join_last_two[OF pd tk, of base] obtain W1 where
    W1: "split_on CHR ''/'' (path_join (path_join base ''device-certs'') (tag @ ''-key.pem''))
          = W1 @ [''device-certs'', tag @ ''-key.pem'']" by blast
  from path_join_last_two[OF pc pk, of base] obtain V1 where
    V1: "split_on CHR ''/'' (path_join (path_join base ''ca'') ''ca-key.pem'')
          = V1 @ [''ca'', ''ca-key.pem'']" by blast
  from path_join_last_two[OF pd tc, of base] obtain W2 where
    W2: "split_on CHR ''/'' (path_join (path_join base ''device-certs'') (tag @ ''-cert.pem''))
          = W2 @ [''device-certs'', tag @ ''-cert.pem'']" by blast
  from path_join_last_two[OF pc pcc, of base] obtain V2 where
    V2: "split_on CHR ''/'' (path_join (path_join base ''ca'') ''ca-cert.pem'')
          = V2 @ [''ca'', ''ca-cert.pem'']" by blast
  show "keyPath_of (new_CertificateGenerator base) tag \<noteq> caKeyPath (new_CertificateGenerator base)"
    using last_two_clash[OF W1 V1]
    by (simp add: keyPath_of_def new_CertificateGenerator_def Let_def)
  show "certPath_of (new_CertificateGenerator base) tag \<noteq> caCertPath (new_CertificateGenerator base)"
    using last_two_clash[OF W2 V2]
    by (simp add: certPath_of_def new_CertificateGenerator_def Let_def)
qed

section \<open>The effect monad\<close>

lemma io_bind_Inr:
  "io_bind m f w = (Inr y, w') \<longleftrightarrow> (\<exists>x w1. m w = (Inr x, w1) \<and> f x w1 = (Inr y, w'))"
  by (auto simp: io_bind_def split: prod.splits sum.splits)

lemma io_bind_step: "m w = (Inr x, w1) \<Longrightarrow> io_bind m f w = f x w1"
  by (simp add: io_bind_def)

lemma io_bind_fail: "m w = (Inl e, w1) \<Longrightarrow> io_bind m f w = (Inl e, w1)"
  by (simp add: io_bind_def)

lemma io_return_apply [simp]: "io_return x w = (Inr x, w)"
  by (simp add: io_return_def)

lemma readFile_state [simp]: "snd (readFile pf p w) = w"
  by (simp add: readFile_def split: sum.splits)

lemma readFile_Inr:
  "readFile pf p w = (Inr t, w') \<longleftrightarrow> w' = w \<and> (\<exists>c. get_file p w = Inr c \<and> t = text_of pf c)"
  by (auto simp: readFile_def split: sum.splits)

lemma fs_access_of_get_file: "get_file p w = Inr c \<Longrightarrow> fs_access p w = (Inr (), w)"
  by (auto simp: get_file_def fs_access_def split: sum.splits option.splits node.splits if_splits)

lemma try_branch_Inr:
  "get_file p w = Inr c \<Longrightarrow>
   io_bind (fs_access p) (\<lambda>_. io_bind (readFile pf p) (\<lambda>content. io_return \<lparr>caCertContent = content, isNew = False\<rparr>)) w
     = (Inr \<lparr>caCertContent = text_of pf c, isNew = False\<rparr>, w)"
  by (simp add: io_bind_def fs_access_of_get_file readFile_def)

lemma try_branch_Inl:
  "get_file p w = Inl e \<Longrightarrow>
   \<exists>e'. io_bind (fs_access p) (\<lambda>_. io_bind (readFile pf p) (\<lambda>content. io_return \<lparr>caCertContent = content, isNew = False\<rparr>)) w
     = (Inl e', w)"
  by (auto simp: io_bind_def fs_access_def readFile_def split: sum.splits option.splits)

lemma ensureCAExists_present:
  "get_file (caCertPath cg) w = Inr c \<Longrightarrow>
   ensureCAExists pf cg w = (Inr \<lparr>caCertContent = text_of pf c, isNew = False\<rparr>, w)"
  by (simp add: ensureCAExists_def io_catch_def try_branch_Inr)

lemma ensureCAExists_unreadable:
  "get_file (caCertPath cg) w = Inl e \<Longrightarrow> ensureCAExists pf cg w = generate_new_ca pf cg w"
  using try_branch_Inl[of "caCertPath cg" w e pf]
  by (auto simp: ensureCAExists_def io_catch_def)

lemma generate_new_ca_Inr:
  assumes "generate_new_ca pf cg w = (Inr r, w')"
  shows "\<exists>c. get_file (caCertPath cg) w' = Inr c \<and> r = \<lparr>caCertContent = text_of pf c, isNew = True\<rparr>"
  using assms
  by (auto simp: generate_new_ca_def io_bind_Inr readFile_Inr Let_def)

text \<open>
  C1. Once a call of \<open>ensureCAExists\<close> has completed, a further call changes
  nothing at all (so it writes neither the CA key, nor the certificate, nor the
  pass phrase), returns the certificate content of the first call and reports
  \<open>isNew = False\<close>. The state after it is the state before it, so the same holds
  for every later call.
\<close>

theorem ensureCAExists_idempotent:
  assumes "ensureCAExists pf cg w = (Inr r, w1)"
  shows "ensureCAExists pf cg w1 = (Inr (r\<lparr>isNew := False\<rparr>), w1)"
proof (cases "get_file (caCertPath cg) w")
  case (Inr c)
  from ensureCAExists_present[OF Inr, of pf] assms
  have "w1 = w" "r = \<lparr>caCertContent = text_of pf c, isNew = False\<rparr>" by simp_all
  then show ?thesis using ensureCAExists_present[OF Inr, of pf] by simp
next
  case (Inl e)
  from ensureCAExists_unreadable[OF Inl, of pf] assms
  have "generate_new_ca pf cg w = (Inr r, w1)" by simp
  from generate_new_ca_Inr[OF this] obtain c where
    c: "get_file (caCertPath cg) w1 = Inr c" "r = \<lparr>caCertContent = text_of pf c, isNew = True\<rparr>"
    by blast
  show ?thesis using ensureCAExists_present[OF c(1), of pf] c(2) by simp
qed

lemma demo_paths:
  "caCertPath demo_generator = ''/srv/pb/ca/ca-cert.pem''"
  "caKeyPath demo_generator = ''/srv/pb/ca/ca-key.pem''"
  "caPasswordPath demo_generator = ''/srv/pb/ca/ca-password.txt''"
  "certsDir demo_generator = ''/srv/pb/device-certs''"
  by code_simp+

theorem ensureCAExists_idempotent_witness:
  "ensureCAExists demo_platform demo_generator
     (snd (ensureCAExists demo_platform demo_generator demo_world))
   = (Inr \<lparr>caCertContent =
             ''CERT /C=NL/ST=Noord-Holland/L=Amsterdam/O=Poem Booth/CN=Poem Booth Root CA #1232'',
           isNew = False\<rparr>,
      snd (ensureCAExists demo_platform demo_generator demo_world))"
proof -
  have f: "fst (ensureCAExists demo_platform demo_generator demo_world)
           = Inr \<lparr>caCertContent =
             ''CERT /C=NL/ST=Noord-Holland/L=Amsterdam/O=Poem Booth/CN=Poem Booth Root CA #1232'',
           isNew = True\<rparr>"
    by code_simp
  have h: "ensureCAExists demo_platform demo_generator demo_world
           = (Inr \<lparr>caCertContent =
             ''CERT /C=NL/ST=Noord-Holland/L=Amsterdam/O=Poem Booth/CN=Poem Booth Root CA #1232'',
           isNew = True\<rparr>, snd (ensureCAExists demo_platform demo_generator demo_world))"
    using f by (simp add: prod_eq_iff)
  from ensureCAExists_idempotent[OF h] show ?thesis by simp
qed

section \<open>Uploading the CA\<close>

text \<open>
  C6. \<open>uploadCAToDatabase\<close> returns normally on the duplicate-key answer (code
  \<^verbatim>\<open>23505\<close>) of the datastore and raises on every other error answer; and whenever
  it returns normally, the dates were valid and the datastore answered with no
  error or with the duplicate-key error: nothing else is swallowed.
\<close>

theorem uploadCAToDatabase_swallows_only_duplicate:
  "(\<forall>err. db (ca_row_of pf content fp t1 t2) = Some err \<longrightarrow>
      uploadCAToDatabase pf db content fp (Some t1) (Some t2)
        = (if code err = ''23505'' then Inr ()
           else Inl (Error (''Failed to upload CA: '' @ message err))))
   \<and> (uploadCAToDatabase pf db content fp nb na = Inr () \<longrightarrow>
        (\<exists>u1 u2. nb = Some u1 \<and> na = Some u2 \<and>
           (db (ca_row_of pf content fp u1 u2) = None
            \<or> (\<exists>err. db (ca_row_of pf content fp u1 u2) = Some err \<and> code err = ''23505''))))"
  by (auto simp: uploadCAToDatabase_def toISOString_def ca_row_of_def
           split: option.splits sum.splits if_splits)

theorem uploadCAToDatabase_swallows_only_duplicate_witness:
  "uploadCAToDatabase demo_platform (\<lambda>r. Some duplicate_key_error) ''PEM'' ''ab12'' (Some 0) (Some 10)
     = Inr ()
   \<and> uploadCAToDatabase demo_platform
         (\<lambda>r. Some \<lparr>code = ''42501'', message = ''permission denied''\<rparr>)
         ''PEM'' ''ab12'' (Some 0) (Some 10)
       = Inl (Error ''Failed to upload CA: permission denied'')"
  using uploadCAToDatabase_swallows_only_duplicate
          [of "\<lambda>r. Some duplicate_key_error" demo_platform "''PEM''" "''ab12''" 0 10]
        uploadCAToDatabase_swallows_only_duplicate
          [of "\<lambda>r. Some \<lparr>code = ''42501'', message = ''permission denied''\<rparr>"
              demo_platform "''PEM''" "''ab12''" 0 10]
  by (simp add: duplicate_key_error_def)

section \<open>File operations, characterised\<close>

lemma slot_drawn [simp]: "slot (drawn_update f w) p = slot w p"
  by (simp add: slot_def)

lemma holds_drawn [simp]: "holds (drawn_update f w) p c = holds w p c"
  by (simp add: holds_def)

lemma mode_after_drawn [simp]: "mode_after (drawn_update f w) p m = mode_after w p m"
  by (simp add: mode_after_def)

lemma open_for_write_slot: "slot w p \<Longrightarrow> open_for_write w p m = Inr (mode_after w p m)"
  by (auto simp: open_for_write_def resolve_def slot_def mode_after_def split: option.splits)

lemma open_for_write_no_slot: "\<not> slot w p \<Longrightarrow> \<exists>e. open_for_write w p m = Inl e"
  by (auto simp: open_for_write_def resolve_def slot_def split: option.splits)

lemma put_file_slot:
  "slot w p \<Longrightarrow> put_file p c m w = Inr (w\<lparr>files := (files w)(p \<mapsto> (c, mode_after w p m))\<rparr>)"
  by (simp add: put_file_def open_for_write_slot)

lemma put_file_no_slot: "\<not> slot w p \<Longrightarrow> \<exists>e. put_file p c m w = Inl e"
  using open_for_write_no_slot[of w p m] by (auto simp: put_file_def)

lemma put_file_Inr:
  "put_file p c m w = Inr w' \<longleftrightarrow>
     slot w p \<and> w' = w\<lparr>files := (files w)(p \<mapsto> (c, mode_after w p m))\<rparr>"
  using put_file_slot[of w p c m] put_file_no_slot[of w p c m] by (cases "slot w p") auto

lemma get_file_Inr: "get_file p w = Inr c \<longleftrightarrow> holds w p c"
  by (auto simp: get_file_def resolve_def holds_def split: option.splits if_splits)

lemma holds_unique: "holds w p c \<Longrightarrow> holds w p c' \<Longrightarrow> c' = c"
  by (auto simp: holds_def)

lemma readFile_holds: "holds w p c \<Longrightarrow> readFile pf p w = (Inr (text_of pf c), w)"
  by (simp add: readFile_def get_file_Inr[symmetric])

lemma readFile_Inr_holds:
  "readFile pf p w = (Inr t, w') \<longleftrightarrow> w' = w \<and> (\<exists>c. holds w p c \<and> t = text_of pf c)"
  by (simp add: readFile_Inr get_file_Inr)

lemma readFile_same_state: "readFile pf p w = (r, w') \<Longrightarrow> w' = w"
  by (auto simp: readFile_def split: sum.splits)

lemma writeFile_slot:
  "slot w p \<Longrightarrow>
   writeFile p d m w = (Inr (), w\<lparr>files := (files w)(p \<mapsto> (Text d, mode_after w p m))\<rparr>)"
  by (simp add: writeFile_def put_file_slot)

lemma writeFile_no_slot: "\<not> slot w p \<Longrightarrow> \<exists>e. writeFile p d m w = (Inl e, w)"
  using put_file_no_slot[of w p "Text d" m] by (auto simp: writeFile_def)

lemma writeFile_Inr:
  "writeFile p d m w = (Inr u, w') \<longleftrightarrow>
     slot w p \<and> w' = w\<lparr>files := (files w)(p \<mapsto> (Text d, mode_after w p m))\<rparr>"
  using writeFile_slot[of w p d m] writeFile_no_slot[of w p d m] by (cases "slot w p") auto

lemma unlink_result:
  "unlink p w =
     (if parent_dir p \<in> dirs w \<and> p \<notin> dirs w \<and> files w p \<noteq> None
      then (Inr (), w\<lparr>files := (files w)(p := None)\<rparr>)
      else (Inl (SystemError (if parent_dir p \<in> dirs w \<and> p \<in> dirs w then EISDIR else ENOENT) p), w))"
  by (auto simp: unlink_def resolve_def split: option.splits)

lemma randomBytes_result:
  "randomBytes n w =
     (Inr (map (\<lambda>i. entropy w (drawn w + i) mod 256) [0..<n]), w\<lparr>drawn := drawn w + n\<rparr>)"
  by (simp add: randomBytes_def)

section \<open>OpenSSL invocations, characterised\<close>

lemma read_pem_Some: "read_pem p w = Some obj \<longleftrightarrow> holds w p (Pem obj)"
  by (auto simp: read_pem_def get_file_Inr[symmetric] split: sum.splits content.splits)

lemma read_conf_Some:
  "read_conf p w = Some cf \<longleftrightarrow> (\<exists>s. holds w p (Text s) \<and> parse_conf s = Some cf)"
  by (auto simp: read_conf_def get_file_Inr[symmetric] split: sum.splits content.splits)

lemma load_key_Some:
  "load_key p passin w = Some k \<longleftrightarrow> (\<exists>obj. holds w p (Pem obj) \<and> unlock obj passin = Some k)"
proof (cases "read_pem p w")
  case None
  then have "\<And>obj. \<not> holds w p (Pem obj)" using read_pem_Some[of p w] by auto
  then show ?thesis using None by (simp add: load_key_def)
next
  case (Some obj)
  then have h: "holds w p (Pem obj)" by (simp add: read_pem_Some)
  show ?thesis using Some h holds_unique[OF h] by (auto simp: load_key_def)
qed

lemma exec_Genrsa_Inr:
  "execAsync pf (Genrsa out passout bits) w = (Inr out_text, w') \<longleftrightarrow>
     slot w out \<and> out_text = [] \<and>
     w' = w\<lparr>files := (files w)(out \<mapsto> (Pem (PrivateKey (entropy w (drawn w)) bits passout),
                                        mode_after w out mode_0600)),
            drawn := drawn w + 1\<rparr>"
proof (cases "slot w out")
  case True
  then show ?thesis by (auto simp: execAsync_def draw_def put_file_slot)
next
  case False
  from put_file_no_slot[of "w\<lparr>drawn := drawn w + 1\<rparr>" out] False
  obtain e where "put_file out (Pem (PrivateKey (entropy w (drawn w)) bits passout)) mode_0600
                    (w\<lparr>drawn := drawn w + 1\<rparr>) = Inl e" by auto
  then show ?thesis using False by (simp add: execAsync_def draw_def)
qed

lemma exec_same_fs_on_failure:
  "execAsync pf (Genrsa out passout bits) w = (Inl e, w') \<Longrightarrow> files w' = files w \<and> dirs w' = dirs w"
  by (auto simp: execAsync_def draw_def put_file_def split: prod.splits option.splits sum.splits)

lemma exec_ReqNew_Inr:
  "execAsync pf (ReqNew key out config) w = (Inr out_text, w') \<longleftrightarrow>
     (\<exists>cf subj san k.
        read_conf config w = Some cf \<and> conf_subject cf = Some subj \<and>
        conf_req_extensions cf = Some san \<and> load_key key None w = Some k \<and>
        slot w out \<and> out_text = [] \<and>
        w' = w\<lparr>files := (files w)(out \<mapsto> (Pem (Request subj k san), mode_after w out mode_0644))\<rparr>)"
proof (cases "slot w out")
  case True
  then show ?thesis
    by (auto simp: execAsync_def put_file_slot split: prod.splits option.splits)
next
  case False
  have "\<And>c. \<exists>e. put_file out c mode_0644 w = Inl e"
    using put_file_no_slot[OF False] by blast
  then have "fst (openssl_run pf (ReqNew key out config) w) = None"
    by (auto split: option.splits sum.splits) (metis Inl_Inr_False)+
  then show ?thesis using False
    by (auto simp: execAsync_def split: prod.splits option.splits)
qed

lemma exec_ReqNew_Inl:
  "execAsync pf (ReqNew key out config) w = (Inl e, w') \<Longrightarrow> w' = w"
  by (auto simp: execAsync_def split: prod.splits option.splits sum.splits)

lemma slot_files_drawn [simp]:
  "slot (files_update g (drawn_update f w)) p = slot (files_update g w) p"
  by (simp add: slot_def)

lemma holds_files_drawn [simp]:
  "holds (files_update g (drawn_update f w)) p c = holds (files_update g w) p c"
  by (simp add: holds_def)

lemma mode_after_files_drawn [simp]:
  "mode_after (files_update g (drawn_update f w)) p m = mode_after (files_update g w) p m"
  by (simp add: mode_after_def)

lemma not_Some_pair [simp]: "(\<forall>a b. x \<noteq> Some (a, b)) \<longleftrightarrow> x = None"
  by (cases x) auto

lemma exec_ReqX509_Inr:
  "execAsync pf (ReqX509 days key out passin subj) w = (Inr out_text, w') \<longleftrightarrow>
     (\<exists>k. load_key key (Some passin) w = Some k \<and> slot w out \<and> out_text = [] \<and>
        w' = w\<lparr>files := (files w)(out \<mapsto>
                   (Pem (Certificate \<lparr>subject = subj, issuer = subj, public_key = k, signing_key = k,
                          not_before = now w, not_after = now w + int days * seconds_per_day,
                          serial = entropy w (drawn w), subject_alt_names = []\<rparr>),
                    mode_after w out mode_0644)),
               drawn := drawn w + 1\<rparr>)"
proof (cases "slot w out")
  case True
  then show ?thesis
    by (auto simp: execAsync_def draw_def put_file_slot Let_def split: option.splits)
next
  case False
  have "\<And>c. \<exists>e. put_file out c mode_0644 (w\<lparr>drawn := drawn w + 1\<rparr>) = Inl e"
    using put_file_no_slot[of "w\<lparr>drawn := drawn w + 1\<rparr>" out] False by simp
  then have "fst (openssl_run pf (ReqX509 days key out passin subj) w) = None"
    by (auto simp: draw_def Let_def split: option.splits sum.splits) (metis Inl_Inr_False)+
  then show ?thesis using False
    by (auto simp: execAsync_def split: prod.splits option.splits)
qed

lemma exec_X509Req_Inr:
  "execAsync pf (X509Req inp ca cakey out days extfile passin) w = (Inr out_text, w') \<longleftrightarrow>
     (\<exists>subj k san_req cacert cf san w2.
        read_pem inp w = Some (Request subj k san_req) \<and>
        read_pem ca w = Some (Certificate cacert) \<and>
        load_key cakey (Some passin) w = Some (public_key cacert) \<and>
        read_conf extfile w = Some cf \<and> conf_alt_names cf ''v3_req'' = Some san \<and>
        slot w (srl_path ca) \<and>
        w2 = w\<lparr>files := (files w)(srl_path ca \<mapsto>
                 (Text (show_nat (entropy w (drawn w))), mode_after w (srl_path ca) mode_0644)),
               drawn := drawn w + 1\<rparr> \<and>
        slot w2 out \<and> out_text = [] \<and>
        w' = w2\<lparr>files := (files w2)(out \<mapsto>
                   (Pem (Certificate \<lparr>subject = subj, issuer = subject cacert, public_key = k,
                          signing_key = public_key cacert, not_before = now w,
                          not_after = now w + int days * seconds_per_day,
                          serial = entropy w (drawn w), subject_alt_names = san\<rparr>),
                    mode_after w2 out mode_0644))\<rparr>)"
  (is "?L \<longleftrightarrow> ?R")
proof
  assume ?L
  then show ?R
    apply (simp add: execAsync_def draw_def Let_def
               split: prod.splits option.splits sum.splits pem_obj.splits if_splits)
    apply (auto simp: put_file_Inr)
    done
next
  assume ?R
  then show ?L
    by (auto simp: execAsync_def draw_def Let_def put_file_slot)
qed

lemma slot_reach: "slot w p \<Longrightarrow> reach w p"
  by (simp add: slot_def reach_def)

lemma cleanup_result:
  "\<exists>w'. cleanup_temporary_files a b w = (Inr (), w') \<and> dirs w' = dirs w
      \<and> drawn w' = drawn w \<and> entropy w' = entropy w \<and> now w' = now w
      \<and> (\<forall>q. q \<noteq> a \<longrightarrow> q \<noteq> b \<longrightarrow> files w' q = files w q)
      \<and> (reach w a \<longrightarrow> files w' a = None) \<and> (reach w b \<longrightarrow> files w' b = None)"
  by (auto simp: cleanup_temporary_files_def io_bind_def io_catch_def unlink_result reach_def)

section \<open>Issuing a device certificate\<close>

lemma randomUUID_result:
  "randomUUID w =
     (Inr (uuid_string (map (\<lambda>i. entropy w (drawn w + i) mod 256) [0..<16])),
      w\<lparr>drawn := drawn w + 16\<rparr>)"
  by (simp add: randomUUID_def io_bind_def randomBytes_result)

lemma cleanup_Inr:
  "cleanup_temporary_files a b w = (r, w') \<Longrightarrow>
     r = Inr () \<and> dirs w' = dirs w \<and> drawn w' = drawn w
      \<and> (\<forall>q. q \<noteq> a \<longrightarrow> q \<noteq> b \<longrightarrow> files w' q = files w q)
      \<and> (reach w a \<longrightarrow> files w' a = None) \<and> (reach w b \<longrightarrow> files w' b = None)"
  using cleanup_result[of a b w] by auto

text \<open>A completed issuance, step by step.\<close>

lemma generateDeviceCertificate_trace:
  assumes "generateDeviceCertificate pf cg tag hub eq w = (Inr r, w')"
  obtains dev w1 w2 w3 w4 w5 pwc cc t1 t2 t3 where
      "dev = uuid_string (map (\<lambda>i. entropy w (drawn w + i) mod 256) [0..<16])"
      "w1 = w\<lparr>drawn := drawn w + 16\<rparr>"
      "writeFile (configPath_of cg tag) (trim (opensslConfig dev eq hub tag)) mode_0644 w1 = (Inr (), w2)"
      "execAsync pf (Genrsa (keyPath_of cg tag) None 2048) w2 = (Inr t1, w3)"
      "execAsync pf (ReqNew (keyPath_of cg tag) (csrPath_of cg tag) (configPath_of cg tag)) w3 = (Inr t2, w4)"
      "holds w4 (caPasswordPath cg) pwc"
      "execAsync pf (X509Req (csrPath_of cg tag) (caCertPath cg) (caKeyPath cg) (certPath_of cg tag)
                      3650 (configPath_of cg tag) (trim (text_of pf pwc))) w4 = (Inr t3, w5)"
      "holds w5 (certPath_of cg tag) cc"
      "cleanup_temporary_files (csrPath_of cg tag) (configPath_of cg tag) w5 = (Inr (), w')"
      "r = \<lparr>deviceId = dev, equipmentId = eq, fingerprint = sha256_hex pf (text_of pf cc),
            certificatePath = certPath_of cg tag, privateKeyPath = keyPath_of cg tag\<rparr>"
  using assms
  apply (simp add: generateDeviceCertificate_def Let_def)
  apply (simp add: io_bind_Inr randomUUID_result readFile_Inr_holds)
  apply (elim exE conjE)
  apply (simp add: readFile_Inr_holds)
  done

lemma io_bind_eq_iff:
  "io_bind m f w = (r, w') \<longleftrightarrow>
     (\<exists>e. m w = (Inl e, w') \<and> r = Inl e) \<or> (\<exists>x w1. m w = (Inr x, w1) \<and> f x w1 = (r, w'))"
  by (auto simp: io_bind_def split: prod.splits sum.splits)

lemma slot_other [simp]:
  "q \<noteq> p \<Longrightarrow> slot (files_update (\<lambda>_. g(p := x)) w) q = slot (files_update (\<lambda>_. g) w) q"
  by (simp add: slot_def)

lemma holds_other [simp]:
  "q \<noteq> p \<Longrightarrow> holds (files_update (\<lambda>_. g(p := x)) w) q c = holds (files_update (\<lambda>_. g) w) q c"
  by (simp add: holds_def)

lemma mode_after_other [simp]:
  "q \<noteq> p \<Longrightarrow> mode_after (files_update (\<lambda>_. g(p := x)) w) q m = mode_after (files_update (\<lambda>_. g) w) q m"
  by (simp add: mode_after_def)

lemma slot_files_same [simp]: "slot (files_update (\<lambda>_. files w) w) q = slot w q"
  by (simp add: slot_def)

lemma holds_files_same [simp]: "holds (files_update (\<lambda>_. files w) w) q c = holds w q c"
  by (simp add: holds_def)

lemma mode_after_files_same [simp]: "mode_after (files_update (\<lambda>_. files w) w) q m = mode_after w q m"
  by (simp add: mode_after_def)

lemma holds_absent [simp]: "files w p = None \<Longrightarrow> \<not> holds w p c"
  by (simp add: holds_def)

lemma writeFile_Inl: "writeFile p d m w = (Inl e, w') \<Longrightarrow> w' = w \<and> \<not> slot w p"
  using writeFile_slot[of w p d m] by (auto simp: writeFile_def split: sum.splits)

lemma exec_Genrsa_Inl:
  "execAsync pf (Genrsa out passout bits) w = (Inl e, w') \<Longrightarrow>
     files w' = files w \<and> dirs w' = dirs w \<and> \<not> slot w out"
  using exec_Genrsa_Inr[of pf out passout bits w] exec_same_fs_on_failure[of pf out passout bits w e w']
  by (cases "slot w out") auto

lemma exec_X509Req_no_ca:
  "files w ca = None \<Longrightarrow>
   execAsync pf (X509Req inp ca cakey out days extfile passin) w = (Inl (ExecError ''Command failed''), w)"
  using read_pem_Some[of ca w]
  by (cases "read_pem ca w") (auto simp: execAsync_def split: option.splits pem_obj.splits)

lemma issue_without_ca:
  assumes noca: "files w (caCertPath (new_CertificateGenerator base)) = None"
    and run: "generateDeviceCertificate pf (new_CertificateGenerator base) tag hub eq w = (r, w')"
  shows "(\<exists>e. r = Inl e)
       \<and> files w' (certPath_of (new_CertificateGenerator base) tag)
           = files w (certPath_of (new_CertificateGenerator base) tag)
       \<and> (slot w (configPath_of (new_CertificateGenerator base) tag)
            \<longrightarrow> slot w (keyPath_of (new_CertificateGenerator base) tag)
            \<longrightarrow> files w' (keyPath_of (new_CertificateGenerator base) tag)
                  = Some (Pem (PrivateKey (entropy w (drawn w + 16)) 2048 None),
                          mode_after w (keyPath_of (new_CertificateGenerator base) tag) mode_0600))"
proof -
  define cg where "cg = new_CertificateGenerator base"
  define F where "F = configPath_of cg tag"
  define R where "R = csrPath_of cg tag"
  define K where "K = keyPath_of cg tag"
  define C where "C = certPath_of cg tag"
  define S where "S = srl_path (caCertPath cg)"
  define cC where "cC = caCertPath cg"
  note pd = device_paths_distinct[of base tag, folded cg_def, folded F_def R_def K_def C_def S_def cC_def]
  define cfg where "cfg = trim (opensslConfig
      (uuid_string (map (\<lambda>i. entropy w (drawn w + i) mod 256) [0..<16])) eq hub tag)"
  have "(\<exists>e. r = Inl e) \<and> files w' C = files w C
     \<and> (slot w F \<longrightarrow> slot w K \<longrightarrow> files w' K
           = Some (Pem (PrivateKey (entropy w (drawn w + 16)) 2048 None), mode_after w K mode_0600))"
    using run[folded cg_def] noca[folded cg_def, folded cC_def] pd
    apply (simp add: generateDeviceCertificate_def Let_def randomUUID_result io_bind_eq_iff
           F_def[symmetric] R_def[symmetric] K_def[symmetric] C_def[symmetric] cC_def[symmetric]
           cfg_def[symmetric])
    apply (elim disjE exE conjE)
    apply (simp_all add: writeFile_Inr exec_Genrsa_Inr exec_ReqNew_Inr readFile_Inr_holds
              exec_X509Req_no_ca)
    apply (auto simp: exec_X509Req_no_ca exec_X509Req_Inr read_pem_Some dest!: writeFile_Inl exec_Genrsa_Inl exec_ReqNew_Inl readFile_same_state)
    done
  then show ?thesis
    unfolding cg_def[symmetric] F_def[symmetric] R_def[symmetric] K_def[symmetric] C_def[symmetric] .
qed

end
